theory Spec2Isabelle
  imports Main "HOL-Library.Word" "HOL-Library.AList"
begin

unbundle bit_operations_syntax

section \<open>Bytes on the wire\<close>

type_synonym byte = "8 word"

text \<open>
  Modelled from the spec: \<open>Network::dump16\<close>, \<open>Network::parse16\<close>, \<open>Network::dump32\<close> and
  \<open>Network::parse32\<close> live in util/network, which is not part of the sources at hand. The
  spec fixes them as 16-bit and 32-bit integers in network byte order (most significant
  byte first); the parse functions return the position just behind the bytes they read.
\<close>

definition dump16 :: "16 word \<Rightarrow> byte list" where
  "dump16 d = [ucast (drop_bit 8 d), ucast d]"

definition dump32 :: "32 word \<Rightarrow> byte list" where
  "dump32 d = [ucast (drop_bit 24 d), ucast (drop_bit 16 d), ucast (drop_bit 8 d), ucast d]"

definition parse16 :: "byte list \<Rightarrow> nat \<Rightarrow> 16 word" where
  "parse16 bs i = push_bit 8 (ucast (bs ! i)) OR ucast (bs ! (i + 1))"

definition parse32 :: "byte list \<Rightarrow> nat \<Rightarrow> 32 word" where
  "parse32 bs i =
     push_bit 24 (ucast (bs ! i)) OR push_bit 16 (ucast (bs ! (i + 1)))
       OR push_bit 8 (ucast (bs ! (i + 2))) OR ucast (bs ! (i + 3))"

section \<open>NetworkBuffer\<close>

text \<open>
  The class \<open>NetworkBuffer\<close>. \<open>lengthB\<close> is the member \<open>length\<close>: the write cursor while a
  frame is built and the read cursor while one is decoded. \<open>buffer\<close> is the character array
  of \<open>actualLength\<close> bytes and \<open>contains\<close> the number of bytes the last \<open>readAll\<close> received.
  The three counters are C \<open>int\<close>s; they are kept as mathematical integers here and the one
  place where the source narrows a wider value back to \<open>int\<close> is written out as \<open>int_cast\<close>.
\<close>

record NetworkBuffer =
  lengthB :: int
  buffer :: "byte list"
  actualLength :: int
  contains :: int

definition int_cast :: "int \<Rightarrow> int" where
  "int_cast x = (x + 2 ^ 31) mod 2 ^ 32 - 2 ^ 31"

definition NetworkBuffer_new :: "int \<Rightarrow> NetworkBuffer" where
  "NetworkBuffer_new sz =
     \<lparr>lengthB = 0, buffer = replicate (nat sz) 0, actualLength = sz, contains = 0\<rparr>"

definition increaseBuffer :: "NetworkBuffer \<Rightarrow> int \<Rightarrow> NetworkBuffer" where
  "increaseBuffer b minimum =
     (let newLength = max (actualLength b * 2) (actualLength b + minimum)
      in b\<lparr>buffer := take (nat (lengthB b)) (buffer b)
                        @ replicate (nat newLength - nat (lengthB b)) 0,
           actualLength := newLength\<rparr>)"

definition checkBuffer :: "NetworkBuffer \<Rightarrow> int \<Rightarrow> NetworkBuffer" where
  "checkBuffer b bytes =
     (if lengthB b + bytes \<ge> actualLength b then increaseBuffer b bytes else b)"

definition store_bytes :: "byte list \<Rightarrow> nat \<Rightarrow> byte list \<Rightarrow> byte list" where
  "store_bytes buf at bs = take at buf @ bs @ drop (at + length bs) buf"

definition put16 :: "NetworkBuffer \<Rightarrow> 16 word \<Rightarrow> NetworkBuffer" where
  "put16 b d =
     (let b1 = checkBuffer b 2
      in b1\<lparr>buffer := store_bytes (buffer b1) (nat (lengthB b1)) (dump16 d),
            lengthB := lengthB b1 + 2\<rparr>)"

definition put32 :: "NetworkBuffer \<Rightarrow> 32 word \<Rightarrow> NetworkBuffer" where
  "put32 b d =
     (let b1 = checkBuffer b 4
      in b1\<lparr>buffer := store_bytes (buffer b1) (nat (lengthB b1)) (dump32 d),
            lengthB := lengthB b1 + 4\<rparr>)"

definition get16 :: "NetworkBuffer \<Rightarrow> 16 word \<times> NetworkBuffer" where
  "get16 b =
     (if int_cast (lengthB b + 2) < contains b
      then (parse16 (buffer b) (nat (lengthB b)), b\<lparr>lengthB := lengthB b + 2\<rparr>)
      else (- 1, b))"

definition get32 :: "NetworkBuffer \<Rightarrow> 32 word \<times> NetworkBuffer" where
  "get32 b =
     (if int_cast (lengthB b + 4) < contains b
      then (parse32 (buffer b) (nat (lengthB b)), b\<lparr>lengthB := lengthB b + 4\<rparr>)
      else (- 1, b))"

definition add :: "NetworkBuffer \<Rightarrow> byte list \<Rightarrow> int \<Rightarrow> NetworkBuffer" where
  "add b data sz =
     (let b1 = checkBuffer b sz
      in b1\<lparr>buffer := store_bytes (buffer b1) (nat (lengthB b1)) (take (nat sz) data),
            lengthB := lengthB b1 + sz\<rparr>)"

definition put_string :: "NetworkBuffer \<Rightarrow> byte list \<Rightarrow> NetworkBuffer" where
  "put_string b str = add (put16 b (word_of_nat (length str))) str (int (length str))"

definition readAll :: "NetworkBuffer \<Rightarrow> byte list \<Rightarrow> NetworkBuffer" where
  "readAll b incoming =
     (let n = min (length incoming) (nat (actualLength b))
      in b\<lparr>buffer := take n incoming @ drop n (buffer b), contains := int n\<rparr>)"

definition sent_bytes :: "NetworkBuffer \<Rightarrow> byte list" where
  "sent_bytes b = take (nat (lengthB b)) (buffer b)"

section \<open>Packets\<close>

text \<open>
  \<open>NetworkMagic\<close> is the \<open>int16_t\<close> constant \<open>0xd97f\<close>; the type codes are the values of
  the enumeration \<open>Packet::Type\<close>, numbered from zero in the order of declaration.
\<close>

definition NetworkMagic :: "16 word" where
  "NetworkMagic = 0xd97f"

definition InputType :: "16 word" where
  "InputType = 0"

definition PingType :: "16 word" where
  "PingType = 1"

definition WorldType :: "16 word" where
  "WorldType = 2"

text \<open>
  The structure \<open>Input\<close> is declared in behavior.h, outside the sources at hand; its fields
  are the ten that \<open>sendPacket\<close> writes, each with the suffix \<open>_key\<close> here. A \<open>World\<close> is a
  snapshot of the simulation: the tick counter \<open>getStageData().ticker\<close> and the rest of the
  simulation state, which is opaque and of type \<open>'sim\<close>.
\<close>

record Input =
  a_key :: bool
  b_key :: bool
  c_key :: bool
  x_key :: bool
  y_key :: bool
  z_key :: bool
  back_key :: bool
  forward_key :: bool
  up_key :: bool
  down_key :: bool

record 'sim World =
  ticker :: "32 word"
  simulation :: 'sim

datatype 'sim Packet =
    InputPacket Input "32 word"
  | PingPacket "16 word"
  | WorldPacket "'sim World"

datatype error =
    MugenException string
  | NetworkException
  | bad_array_new_length
  | out_of_bounds

text \<open>
  The decimal text of an \<open>int16_t\<close> as the output stream writes it into the message of
  the exception.
\<close>

fun show_nat :: "nat \<Rightarrow> string" where
  "show_nat n =
     (if n < 10 then [char_of (48 + n)]
      else show_nat (n div 10) @ [char_of (48 + n mod 10)])"

declare show_nat.simps [simp del]

definition show_int :: "int \<Rightarrow> string" where
  "show_int i = (if i < 0 then CHR ''-'' # show_nat (nat (- i)) else show_nat (nat i))"

text \<open>
  The collaborators of \<open>sendPacket\<close> that are not part of the sources at hand, taken as
  parameters: the compact text of the token tree built from an \<open>Input\<close>, the compact text of
  the filtered token tree of a \<open>World\<close>, and \<open>LZ4_compress\<close>, which yields the compressed
  bytes (their number is its return value).
\<close>

record 'sim Collaborators =
  inputCompact :: "Input \<Rightarrow> byte list"
  worldCompact :: "'sim World \<Rightarrow> byte list"
  LZ4_compress :: "byte list \<Rightarrow> byte list"

text \<open>
  The static function \<open>sendPacket\<close>: the frame it builds in a fresh buffer of 128 bytes and
  hands to the socket. The \<open>default\<close> branch of its switch cannot be reached from a value
  of the enumeration.
\<close>

definition sendPacket :: "'sim Collaborators \<Rightarrow> 'sim Packet \<Rightarrow> byte list" where
  "sendPacket ext packet =
     (case packet of
        InputPacket inp tick \<Rightarrow>
          sent_bytes (put_string (put32 (put16 (put16 (NetworkBuffer_new 128) NetworkMagic)
                                   InputType) tick) (inputCompact ext inp))
      | WorldPacket w \<Rightarrow>
          (let compact = worldCompact ext w;
               out = LZ4_compress ext compact;
               compressed = int (length out)
           in sent_bytes (add (put16 (put16 (put16 (put16 (NetworkBuffer_new 128) NetworkMagic)
                                WorldType) (word_of_int compressed))
                                (word_of_nat (length compact))) out compressed))
      | PingPacket p \<Rightarrow>
          sent_bytes (put16 (put16 (put16 (NetworkBuffer_new 128) NetworkMagic) PingType) p))"

text \<open>
  \<open>readPacket\<close> on a buffer. The branches for \<open>InputType\<close> and \<open>WorldType\<close> leave the switch
  without building a packet (their bodies are commented out or missing in the source) and
  fall through to the final \<open>return NULL\<close>; the \<open>default\<close> branch throws.
\<close>

definition readPacket :: "NetworkBuffer \<Rightarrow> error + 'sim Packet option" where
  "readPacket buf =
     (let (magic, b1) = get16 buf
      in if magic \<noteq> NetworkMagic then Inr None
         else (let (type, b2) = get16 b1
               in if type = InputType then Inr None
                  else if type = PingType
                  then (let (clientPing, b3) = get16 b2 in Inr (Some (PingPacket clientPing)))
                  else if type = WorldType then Inr None
                  else Inl (MugenException (''Unknown packet type: '' @ show_int (sint type)))))"

text \<open>
  What the receiving side holds after one frame has travelled: a fresh buffer of the given
  capacity on which \<open>readAll\<close> has stored the bytes that arrived.
\<close>

definition received :: "int \<Rightarrow> byte list \<Rightarrow> NetworkBuffer" where
  "received capacity bs = readAll (NetworkBuffer_new capacity) bs"

section \<open>The simulation engine\<close>

text \<open>
  Modelled from the spec: the stage, the sound switch and the debug log are collaborators
  whose code is not part of the sources at hand. The spec gives the engine a current-tick
  query (\<open>getTicks\<close>), a single-tick advance (\<open>logic\<close>), a snapshot (\<open>snapshotState\<close>), a
  restore (\<open>updateState\<close>) and a switch that mutes and unmutes side effects
  (\<open>disableSounds\<close>, \<open>enableSounds\<close>). The single-tick advance applies the step function of
  the simulation, a parameter, and moves the tick counter on by one. Every call is
  recorded in \<open>calls\<close>, in the order in which it is made; \<open>Logic t\<close> is a step run at tick
  \<open>t\<close>.
\<close>

datatype 'sim call =
    SnapshotState "32 word"
  | UpdateState "'sim World"
  | Logic "32 word"
  | DisableSounds
  | EnableSounds
  | DebugClientPing "64 word"
  | DebugWorldFromClient
  | DebugGarbage "16 word"

record 'sim Engine =
  stage_ticker :: "32 word"
  stage_simulation :: 'sim
  sounds_enabled :: bool
  calls :: "'sim call list"

definition getTicks :: "'sim Engine \<Rightarrow> 32 word" where
  "getTicks e = stage_ticker e"

definition snapshotState :: "'sim Engine \<Rightarrow> 'sim World \<times> 'sim Engine" where
  "snapshotState e =
     (\<lparr>ticker = stage_ticker e, simulation = stage_simulation e\<rparr>,
      e\<lparr>calls := calls e @ [SnapshotState (stage_ticker e)]\<rparr>)"

definition updateState :: "'sim World \<Rightarrow> 'sim Engine \<Rightarrow> 'sim Engine" where
  "updateState w e =
     e\<lparr>stage_ticker := ticker w, stage_simulation := simulation w,
       calls := calls e @ [UpdateState w]\<rparr>"

definition logic :: "('sim \<Rightarrow> 'sim) \<Rightarrow> 'sim Engine \<Rightarrow> 'sim Engine" where
  "logic step e =
     e\<lparr>stage_ticker := stage_ticker e + 1, stage_simulation := step (stage_simulation e),
       calls := calls e @ [Logic (stage_ticker e)]\<rparr>"

definition disableSounds :: "'sim Engine \<Rightarrow> 'sim Engine" where
  "disableSounds e = e\<lparr>sounds_enabled := False, calls := calls e @ [DisableSounds]\<rparr>"

definition enableSounds :: "'sim Engine \<Rightarrow> 'sim Engine" where
  "enableSounds e = e\<lparr>sounds_enabled := True, calls := calls e @ [EnableSounds]\<rparr>"

definition debug :: "'sim call \<Rightarrow> 'sim Engine \<Rightarrow> 'sim Engine" where
  "debug line e = e\<lparr>calls := calls e @ [line]\<rparr>"

section \<open>Rollback and replay\<close>

text \<open>
  The loop \<open>for (uint32_t i = 0; i < currentTicks - lastState->getStageData().ticker; i++)\<close>
  with the body \<open>stage.logic()\<close>. The bound \<open>n\<close> is recomputed by the source in every round
  from two values that the loop does not change.
\<close>

function replay_loop :: "('sim \<Rightarrow> 'sim) \<Rightarrow> 32 word \<Rightarrow> 32 word \<Rightarrow> 'sim Engine \<Rightarrow> 'sim Engine" where
  "replay_loop step i n e = (if i < n then replay_loop step (i + 1) n (logic step e) else e)"
  by pat_completeness auto
termination
proof (relation "measure (\<lambda>(step, i, n, e). unat n - unat i)")
  show "wf (measure (\<lambda>(step, i, n, e). unat n - unat i))"
    by simp
next
  fix step :: "'sim \<Rightarrow> 'sim" and i n :: "32 word" and e :: "'sim Engine"
  assume less: "i < n"
  have "i + 1 \<noteq> 0"
  proof
    assume "i + 1 = 0"
    then have "i = - 1"
      by (simp add: eq_neg_iff_add_eq_0)
    with less show False
      by simp
  qed
  then have "unat (i + 1) = Suc (unat i)"
    using unatSuc [of i] by (simp add: add.commute)
  moreover from less have "unat i < unat n"
    by (simp add: word_less_nat_alt)
  ultimately show "((step, i + 1, n, logic step e), (step, i, n, e))
      \<in> measure (\<lambda>(step, i, n, e). unat n - unat i)"
    by simp
qed

declare replay_loop.simps [simp del]

text \<open>
  The block that both \<open>beforeLogic\<close> hooks share word for word: when a baseline is held and
  its tick is behind \<open>currentTicks\<close>, restore it, switch the sounds off, run the loop and
  switch the sounds on again.
\<close>

definition rollback_replay ::
  "('sim \<Rightarrow> 'sim) \<Rightarrow> 'sim World option \<Rightarrow> 32 word \<Rightarrow> 'sim Engine \<Rightarrow> 'sim Engine" where
  "rollback_replay step held currentTicks e =
     (case held of
        None \<Rightarrow> e
      | Some w \<Rightarrow>
          if currentTicks > ticker w
          then enableSounds
                 (replay_loop step 0 (currentTicks - ticker w)
                    (disableSounds (updateState w e)))
          else e)"

section \<open>The server\<close>

text \<open>
  The members of \<open>NetworkServerObserver\<close> that its hooks and its packet handler use. The two
  \<open>std::map\<close>s are association lists with at most one entry for a key: \<open>pings\<close> is keyed
  by \<open>int\<close>, \<open>inputs\<close> by the tick. An \<open>InputPacket\<close> is the pair of its \<open>inputs\<close> and its
  \<open>tick\<close>. \<open>alive_flag\<close> is the member \<open>alive_\<close>.
\<close>

record 'sim Server =
  outBox :: "'sim Packet list"
  lastInput :: Input
  pings :: "(int \<times> 64 word) list"
  alive_flag :: bool
  count :: "32 word"
  lastPing :: "64 word"
  ping :: "16 word"
  lastState :: "'sim World option"
  inputs :: "(32 word \<times> (Input \<times> 32 word)) list"

text \<open>
  The constructor. \<open>defaultInput\<close> is what the default constructor of \<open>Input\<close> builds and
  \<open>now\<close> the reading of \<open>System::currentMilliseconds()\<close>; both come from outside.
\<close>

definition NetworkServerObserver :: "Input \<Rightarrow> 64 word \<Rightarrow> 'sim Server" where
  "NetworkServerObserver defaultInput now =
     \<lparr>outBox = [], lastInput = defaultInput, pings = [], alive_flag = True, count = 0,
      lastPing = now, ping = 0, lastState = None, inputs = []\<rparr>"

definition nextPing :: "'sim Server \<Rightarrow> 16 word \<times> 'sim Server" where
  "nextPing s = (ping s, s\<lparr>ping := ping s + 1\<rparr>)"

definition Server_sendPacket :: "'sim Server \<Rightarrow> 'sim Packet \<Rightarrow> 'sim Server" where
  "Server_sendPacket s packet = s\<lparr>outBox := outBox s @ [packet]\<rparr>"

definition getSendPacket :: "'sim Server \<Rightarrow> 'sim Packet option \<times> 'sim Server" where
  "getSendPacket s =
     (case outBox s of
        [] \<Rightarrow> (None, s)
      | packet # rest \<Rightarrow> (Some packet, s\<lparr>outBox := rest\<rparr>))"

definition addInput :: "'sim Server \<Rightarrow> Input \<times> 32 word \<Rightarrow> 'sim Server" where
  "addInput s input = s\<lparr>inputs := AList.update (snd input) input (inputs s)\<rparr>"

definition getInputs :: "'sim Server \<Rightarrow> (32 word \<times> (Input \<times> 32 word)) list \<times> 'sim Server" where
  "getInputs s = (inputs s, s\<lparr>inputs := []\<rparr>)"

text \<open>
  \<open>handlePacket\<close>; \<open>now\<close> is the reading of the clock taken in the \<open>PingType\<close> branch. The id
  of the packet is an \<open>int16_t\<close> and is widened to the \<open>int\<close> key of the table with its sign.
\<close>

definition handlePacket ::
  "64 word \<Rightarrow> 'sim Packet \<Rightarrow> 'sim Server \<times> 'sim Engine \<Rightarrow> 'sim Server \<times> 'sim Engine" where
  "handlePacket now packet se =
     (let (s, e) = se
      in case packet of
           PingPacket p \<Rightarrow>
             (let client = sint p
              in case map_of (pings s) client of
                   Some sent \<Rightarrow>
                     (s\<lparr>pings := AList.delete client (pings s)\<rparr>,
                      debug (DebugClientPing (now - sent)) e)
                 | None \<Rightarrow> (s, e))
         | InputPacket inp tick \<Rightarrow> (addInput s (inp, tick), e)
         | WorldPacket w \<Rightarrow> (s, debug DebugWorldFromClient e))"

text \<open>
  \<open>beforeLogic\<close> of the server. \<open>now1\<close> and \<open>now2\<close> are the two readings of the clock, the
  first in the test of the ping timer and the second when the timer is reset. The loop over
  \<open>useInputs\<close> has an empty body in the source (its two statements are commented out), so
  the drained inputs take no further part. The test that guards the replay reads the
  member \<open>inputs\<close>, after \<open>getInputs\<close> has cleared it.
\<close>

definition Server_beforeLogic ::
  "('sim \<Rightarrow> 'sim) \<Rightarrow> 64 word \<Rightarrow> 64 word \<Rightarrow> 'sim Server \<times> 'sim Engine
     \<Rightarrow> 'sim Server \<times> 'sim Engine" where
  "Server_beforeLogic step now1 now2 se =
     (let (s, e) = se;
          (s1, e1) =
            (if count s mod 30 = 0
             then (let (w, e') = snapshotState e in (Server_sendPacket s (WorldPacket w), e'))
             else (s, e));
          s2 = s1\<lparr>count := count s1 + 1\<rparr>;
          currentTicks = getTicks e1;
          (useInputs, s3) = getInputs s2;
          e2 = (if length (inputs s3) > 0
                then rollback_replay step (lastState s3) currentTicks e1
                else e1)
      in if now1 - lastPing s3 > 1000
         then (let s4 = s3\<lparr>lastPing := now2\<rparr>;
                   (p, s5) = nextPing s4;
                   s6 = s5\<lparr>pings := AList.update (uint p) (lastPing s5) (pings s5)\<rparr>
               in (Server_sendPacket s6 (PingPacket p), e2))
         else (s3, e2))"

text \<open>
  \<open>afterLogic\<close> of the server; \<open>latest\<close> is what \<open>player1Behavior.getInput()\<close> returns.
\<close>

definition Server_afterLogic ::
  "Input \<Rightarrow> 'sim Server \<times> 'sim Engine \<Rightarrow> 'sim Server \<times> 'sim Engine" where
  "Server_afterLogic latest se =
     (let (s, e) = se
      in if latest \<noteq> lastInput s
         then (Server_sendPacket (s\<lparr>lastInput := latest\<rparr>) (InputPacket latest (getTicks e)), e)
         else (s, e))"

section \<open>The client\<close>

text \<open>
  The members of \<open>NetworkClientObserver\<close> that its hooks and its receive loop use, with the
  suffix \<open>_c\<close> where the server has a member of the same name.
\<close>

record 'sim Client =
  world :: "'sim World option"
  alive_c :: bool
  inputs_c :: "(32 word \<times> (Input \<times> 32 word)) list"
  lastState_c :: "'sim World option"

definition NetworkClientObserver :: "'sim Client" where
  "NetworkClientObserver = \<lparr>world = None, alive_c = True, inputs_c = [], lastState_c = None\<rparr>"

definition setWorld :: "'sim Client \<Rightarrow> 'sim World option \<Rightarrow> 'sim Client" where
  "setWorld s w = s\<lparr>world := w\<rparr>"

definition getWorld :: "'sim Client \<Rightarrow> 'sim World option \<times> 'sim Client" where
  "getWorld s = (world s, s\<lparr>world := None\<rparr>)"

definition Client_addInput :: "'sim Client \<Rightarrow> Input \<times> 32 word \<Rightarrow> 'sim Client" where
  "Client_addInput s input = s\<lparr>inputs_c := AList.update (snd input) input (inputs_c s)\<rparr>"

text \<open>
  The first half of \<open>beforeLogic\<close> of the client: the tick is read, the slot is taken with
  \<open>getWorld\<close> and a snapshot found there is put into the stage and kept as \<open>lastState\<close>.
\<close>

definition Client_takeWorld ::
  "'sim Client \<times> 'sim Engine \<Rightarrow> 32 word \<times> 'sim Client \<times> 'sim Engine" where
  "Client_takeWorld se =
     (let (s, e) = se;
          currentTicks = getTicks e;
          (next, s1) = getWorld s
      in case next of
           Some w \<Rightarrow> (currentTicks, s1\<lparr>lastState_c := next\<rparr>, updateState w e)
         | None \<Rightarrow> (currentTicks, s1, e))"

text \<open>
  \<open>beforeLogic\<close> of the client: the first half, then the replay under the lock. The loop over
  \<open>inputs\<close> has an empty body here as well.
\<close>

definition Client_beforeLogic ::
  "('sim \<Rightarrow> 'sim) \<Rightarrow> 'sim Client \<times> 'sim Engine \<Rightarrow> 'sim Client \<times> 'sim Engine" where
  "Client_beforeLogic step se =
     (let (currentTicks, s, e) = Client_takeWorld se
      in if length (inputs_c s) > 0
         then (s\<lparr>inputs_c := []\<rparr>, rollback_replay step (lastState_c s) currentTicks e)
         else (s, e))"

section \<open>The receive loop of the client\<close>

text \<open>
  Modelled from the spec: the byte-stream socket (blocking \<open>read16\<close> and \<open>readBytes\<close> of
  util/network) is a collaborator outside the sources at hand. The socket is the list of
  bytes still to arrive; a read takes them from the front, most significant byte first,
  and raises \<open>NetworkException\<close> when the stream ends before the read is complete.
\<close>

definition read16 :: "byte list \<Rightarrow> error + 16 word \<times> byte list" where
  "read16 socket =
     (if length socket < 2 then Inl NetworkException
      else Inr (parse16 socket 0, drop 2 socket))"

definition readBytes :: "byte list \<Rightarrow> nat \<Rightarrow> error + byte list \<times> byte list" where
  "readBytes socket n =
     (if length socket < n then Inl NetworkException
      else Inr (take n socket, drop n socket))"

text \<open>
  \<open>new uint8_t[n]\<close> for an \<open>int\<close> \<open>n\<close>: an array of \<open>n\<close> bytes, and the exception of the
  language when \<open>n\<close> is negative. The language does not initialise the bytes: what the
  array holds before it is written is given from outside, as the byte \<open>fresh i\<close> found
  at each index \<open>i\<close>. \<open>array_store\<close> is the assignment \<open>what[i] = v\<close>; the source does not
  check the index, and an index outside the array is the error \<open>out_of_bounds\<close> here.
  \<open>c_string\<close> is the construction of a \<open>std::string\<close> from the array: the bytes before
  the first zero, and a read beyond the array when it holds no zero.
\<close>

definition new_array :: "(nat \<Rightarrow> byte) \<Rightarrow> int \<Rightarrow> error + byte list" where
  "new_array fresh n =
     (if n < 0 then Inl bad_array_new_length else Inr (map fresh [0..<nat n]))"

definition c_string :: "byte list \<Rightarrow> error + byte list" where
  "c_string arr =
     (if 0 \<in> set arr then Inr (takeWhile (\<lambda>ch. ch \<noteq> 0) arr) else Inl out_of_bounds)"

definition array_store :: "byte list \<Rightarrow> int \<Rightarrow> byte \<Rightarrow> error + byte list" where
  "array_store arr i v =
     (if 0 \<le> i \<and> i < int (length arr) then Inr (arr[nat i := v]) else Inl out_of_bounds)"

text \<open>
  The collaborators of the \<open>WorldType\<close> branch, taken as parameters: \<open>LZ4_uncompress\<close>
  yields the bytes it writes from the start of the output array, given the compressed
  bytes and the size it is told; \<open>readTokenFromString\<close> yields no token for a text it
  cannot read; \<open>deserialize\<close> builds the world (or the null reference) from a token;
  \<open>uninitialised\<close> is what a newly allocated array holds.
\<close>

record ('sim, 'tok) Readers =
  uninitialised :: "nat \<Rightarrow> byte"
  LZ4_uncompress :: "byte list \<Rightarrow> int \<Rightarrow> byte list"
  readTokenFromString :: "byte list \<Rightarrow> 'tok option"
  deserialize :: "'tok \<Rightarrow> 'sim World option"

definition write_output :: "byte list \<Rightarrow> byte list \<Rightarrow> error + byte list" where
  "write_output arr written =
     (if length written \<le> length arr then Inr (written @ drop (length written) arr)
      else Inl out_of_bounds)"

definition sendPing :: "16 word \<Rightarrow> byte list" where
  "sendPing p = sent_bytes (put16 (put16 (put16 (NetworkBuffer_new 128) NetworkMagic) PingType) p)"

text \<open>
  The outcome of one round of the loop in \<open>doReceive\<close>: the client, the bytes left on the
  socket, the bytes written to the socket and the lines written to the debug log.
\<close>

record 'sim Round =
  client :: "'sim Client"
  socket_rest :: "byte list"
  socket_out :: "byte list"
  debug_log :: "'sim call list"

text \<open>
  The output array of the \<open>WorldType\<close> branch: allocated with \<open>uncompressed + 1\<close> bytes,
  closed with a zero at index \<open>uncompressed\<close> and then filled by \<open>LZ4_uncompress\<close>.
\<close>

definition world_output ::
  "('sim, 'tok) Readers \<Rightarrow> byte list \<Rightarrow> 16 word \<Rightarrow> error + byte list" where
  "world_output rd data uncompressed =
     (case new_array (uninitialised rd) (sint uncompressed + 1) of
        Inl err \<Rightarrow> Inl err
      | Inr what0 \<Rightarrow>
      case array_store what0 (sint uncompressed) 0 of Inl err \<Rightarrow> Inl err | Inr what1 \<Rightarrow>
      write_output what1 (LZ4_uncompress rd data (sint uncompressed)))"

text \<open>
  The \<open>WorldType\<close> branch. The array \<open>data\<close> is allocated and then filled completely by
  \<open>readBytes\<close>, so its bytes are the ones read from the socket.
\<close>

definition receive_world ::
  "('sim, 'tok) Readers \<Rightarrow> 'sim Client \<Rightarrow> byte list \<Rightarrow> error + 'sim Round" where
  "receive_world rd s socket =
     (case read16 socket of Inl err \<Rightarrow> Inl err | Inr (compressed, r1) \<Rightarrow>
      case read16 r1 of Inl err \<Rightarrow> Inl err | Inr (uncompressed, r2) \<Rightarrow>
      case new_array (uninitialised rd) (sint compressed) of
        Inl err \<Rightarrow> Inl err
      | Inr data0 \<Rightarrow>
      case readBytes r2 (nat (sint compressed)) of Inl err \<Rightarrow> Inl err | Inr (data, r3) \<Rightarrow>
      case world_output rd data uncompressed of Inl err \<Rightarrow> Inl err | Inr what \<Rightarrow>
      case c_string what of
        Inl err \<Rightarrow> Inl err
      | Inr use \<Rightarrow>
          (let s' = (case readTokenFromString rd use of
                       None \<Rightarrow> s
                     | Some head \<Rightarrow> setWorld s (deserialize rd head))
           in Inr \<lparr>client = s', socket_rest = r3, socket_out = [], debug_log = []\<rparr>))"

definition doReceive_round ::
  "('sim, 'tok) Readers \<Rightarrow> 'sim Client \<Rightarrow> byte list \<Rightarrow> error + 'sim Round" where
  "doReceive_round rd s socket =
     (case read16 socket of Inl err \<Rightarrow> Inl err | Inr (magic, r1) \<Rightarrow>
      if magic \<noteq> NetworkMagic
      then Inr \<lparr>client = s, socket_rest = r1, socket_out = [],
                debug_log = [DebugGarbage magic]\<rparr>
      else
        (case read16 r1 of Inl err \<Rightarrow> Inl err | Inr (type, r2) \<Rightarrow>
         if type = WorldType then receive_world rd s r2
         else if type = PingType
         then (case read16 r2 of Inl err \<Rightarrow> Inl err | Inr (p, r3) \<Rightarrow>
                 Inr \<lparr>client = s, socket_rest = r3, socket_out = sendPing p, debug_log = []\<rparr>)
         else Inr \<lparr>client = s, socket_rest = r2, socket_out = [], debug_log = []\<rparr>))"

section \<open>The tick loop\<close>

text \<open>
  Modelled from the spec: the loop that drives the hooks belongs to the engine and is not
  part of the sources at hand. The spec places one hook before each simulation step and
  one after it. One tick of the server is therefore \<open>beforeLogic\<close>, the step, \<open>afterLogic\<close>;
  what comes from outside in a tick is the two readings of the clock and the input of the
  local player.
\<close>

definition Server_tick ::
  "('sim \<Rightarrow> 'sim) \<Rightarrow> 64 word \<times> 64 word \<times> Input \<Rightarrow> 'sim Server \<times> 'sim Engine
     \<Rightarrow> 'sim Server \<times> 'sim Engine" where
  "Server_tick step outside se =
     (let (now1, now2, latest) = outside;
          (s1, e1) = Server_beforeLogic step now1 now2 se
      in Server_afterLogic latest (s1, logic step e1))"

fun Server_run ::
  "('sim \<Rightarrow> 'sim) \<Rightarrow> (64 word \<times> 64 word \<times> Input) list \<Rightarrow> 'sim Server \<times> 'sim Engine
     \<Rightarrow> 'sim Server \<times> 'sim Engine" where
  "Server_run step [] se = se"
| "Server_run step (outside # rest) se = Server_run step rest (Server_tick step outside se)"

text \<open>The packets of one kind in a queue, in the order of the queue.\<close>

fun world_packets :: "'sim Packet list \<Rightarrow> 'sim World list" where
  "world_packets [] = []"
| "world_packets (WorldPacket w # rest) = w # world_packets rest"
| "world_packets (other # rest) = world_packets rest"

fun input_packets :: "'sim Packet list \<Rightarrow> (Input \<times> 32 word) list" where
  "input_packets [] = []"
| "input_packets (InputPacket inp tick # rest) = (inp, tick) # input_packets rest"
| "input_packets (other # rest) = input_packets rest"

text \<open>An engine that has not run yet: tick zero, sounds on, no call made.\<close>

definition Engine_start :: "'sim \<Rightarrow> 'sim Engine" where
  "Engine_start sim0 =
     \<lparr>stage_ticker = 0, stage_simulation = sim0, sounds_enabled = True, calls = []\<rparr>"

text \<open>Two inputs of the local player: no key held, and only the key \<open>a\<close> held.\<close>

definition released :: Input where
  "released =
     \<lparr>a_key = False, b_key = False, c_key = False, x_key = False, y_key = False,
      z_key = False, back_key = False, forward_key = False, up_key = False, down_key = False\<rparr>"

definition holding_a :: Input where
  "holding_a = released\<lparr>a_key := True\<rparr>"

section \<open>Buffers in good order\<close>

text \<open>
  What every buffer built by the constructor and the write operations satisfies: the
  cursor lies inside the array and the array has \<open>actualLength\<close> bytes.
\<close>

definition buffer_ok :: "NetworkBuffer \<Rightarrow> bool" where
  "buffer_ok b \<longleftrightarrow>
     0 \<le> lengthB b \<and> lengthB b \<le> actualLength b \<and> length (buffer b) = nat (actualLength b)"

section \<open>Reading from a buffer\<close>

lemma int_cast_id: "- (2 ^ 31) \<le> x \<Longrightarrow> x < 2 ^ 31 \<Longrightarrow> int_cast x = x"
  by (simp add: int_cast_def)

text \<open>
  C9: a 16-bit or 32-bit read from a buffer succeeds (the cursor moves on and the stored
  value is returned) exactly when strictly more bytes than the size of the value are
  unread; when exactly as many bytes as the value has are unread, the read returns the
  sentinel \<open>-1\<close> and leaves the buffer as it was, so the last field of a frame without
  trailing bytes is never decoded. The cursor is taken in the range in which the \<open>int\<close>
  arithmetic of the test does not overflow.
\<close>

theorem read_needs_a_spare_byte:
  assumes "0 \<le> lengthB b" and "lengthB b + 4 < 2 ^ 31"
  shows "(lengthB (snd (get16 b)) \<noteq> lengthB b \<longleftrightarrow> 2 < contains b - lengthB b)
       \<and> (2 < contains b - lengthB b \<longrightarrow>
            get16 b = (parse16 (buffer b) (nat (lengthB b)), b\<lparr>lengthB := lengthB b + 2\<rparr>))
       \<and> (contains b - lengthB b = 2 \<longrightarrow> get16 b = (- 1, b))
       \<and> (lengthB (snd (get32 b)) \<noteq> lengthB b \<longleftrightarrow> 4 < contains b - lengthB b)
       \<and> (4 < contains b - lengthB b \<longrightarrow>
            get32 b = (parse32 (buffer b) (nat (lengthB b)), b\<lparr>lengthB := lengthB b + 4\<rparr>))
       \<and> (contains b - lengthB b = 4 \<longrightarrow> get32 b = (- 1, b))"
proof -
  from assms have "int_cast (lengthB b + 2) = lengthB b + 2"
    by (intro int_cast_id) simp_all
  moreover from assms have "int_cast (lengthB b + 4) = lengthB b + 4"
    by (intro int_cast_id) simp_all
  ultimately show ?thesis
    by (simp add: get16_def get32_def)
qed

theorem read_needs_a_spare_byte_witness:
  "get16 ((received 8 [0xd9, 0x7f, 0, 1, 0, 7])\<lparr>lengthB := 4\<rparr>)
     = (- 1, (received 8 [0xd9, 0x7f, 0, 1, 0, 7])\<lparr>lengthB := 4\<rparr>)
   \<and> get16 ((received 8 [0xd9, 0x7f, 0, 1, 0, 7, 0])\<lparr>lengthB := 4\<rparr>)
     = (7, (received 8 [0xd9, 0x7f, 0, 1, 0, 7, 0])\<lparr>lengthB := 6\<rparr>)
   \<and> get32 ((received 8 [0, 0, 0, 9])\<lparr>lengthB := 0\<rparr>)
     = (- 1, (received 8 [0, 0, 0, 9])\<lparr>lengthB := 0\<rparr>)
   \<and> get32 ((received 8 [0, 0, 0, 9, 0])\<lparr>lengthB := 0\<rparr>)
     = (9, (received 8 [0, 0, 0, 9, 0])\<lparr>lengthB := 4\<rparr>)"
  using read_needs_a_spare_byte [of "(received 8 [0xd9, 0x7f, 0, 1, 0, 7])\<lparr>lengthB := 4\<rparr>"]
    read_needs_a_spare_byte [of "(received 8 [0xd9, 0x7f, 0, 1, 0, 7, 0])\<lparr>lengthB := 4\<rparr>"]
    read_needs_a_spare_byte [of "(received 8 [0, 0, 0, 9])\<lparr>lengthB := 0\<rparr>"]
    read_needs_a_spare_byte [of "(received 8 [0, 0, 0, 9, 0])\<lparr>lengthB := 0\<rparr>"]
  by (simp add: received_def readAll_def NetworkBuffer_new_def parse16_def parse32_def)

section \<open>The echo of a ping\<close>

text \<open>
  The handler looks a ping up under the key it builds itself, the id of the packet as a
  signed number. When that key is in the table, the handler reports the time now minus
  the time recorded and removes the entry, and a second echo with the same id finds no
  entry and leaves the table, the rest of the server and the log as they are.
\<close>

lemma echo_under_signed_key:
  assumes present: "map_of (pings s) (sint p) = Some sent"
  shows "handlePacket now (PingPacket p) (s, e)
           = (s\<lparr>pings := AList.delete (sint p) (pings s)\<rparr>,
              debug (DebugClientPing (now - sent)) e)
       \<and> map_of (pings (fst (handlePacket now (PingPacket p) (s, e)))) (sint p) = None
       \<and> handlePacket later (PingPacket p) (handlePacket now (PingPacket p) (s, e))
           = handlePacket now (PingPacket p) (s, e)"
proof -
  let ?s' = "s\<lparr>pings := AList.delete (sint p) (pings s)\<rparr>"
  let ?e' = "debug (DebugClientPing (now - sent)) e"
  have first: "handlePacket now (PingPacket p) (s, e) = (?s', ?e')"
    using present by (simp add: handlePacket_def)
  have gone: "map_of (pings ?s') (sint p) = None"
    by (simp add: delete_conv')
  then have second: "handlePacket later (PingPacket p) (?s', ?e') = (?s', ?e')"
    by (simp add: handlePacket_def)
  from first gone second show ?thesis
    by simp
qed

text \<open>
  The hook records a ping under its id as an unsigned number. For the ids below \<open>0x8000\<close>
  the two keys agree, and a ping issued by the hook is found by the handler: the ping
  with id 7 is issued when the clock reads 5001 and its echo is handled when the clock
  reads 5251; a round trip of 250 is reported and the table is empty again.
\<close>

lemma low_ping_id_reported:
  "handlePacket 5251 (PingPacket 7)
     (Server_beforeLogic id 5000 5001
        ((NetworkServerObserver released 0)\<lparr>count := 1, ping := 7\<rparr>, Engine_start (0::nat)))
   = ((NetworkServerObserver released 0)\<lparr>count := 2, ping := 8, lastPing := 5001, pings := [],
        outBox := [PingPacket 7]\<rparr>,
      (Engine_start 0)\<lparr>calls := [DebugClientPing 250]\<rparr>)"
  by (simp add: Server_beforeLogic_def NetworkServerObserver_def getInputs_def getTicks_def
      nextPing_def Server_sendPacket_def handlePacket_def debug_def Engine_start_def Let_def)

text \<open>From the id \<open>0x8000\<close> on the key of the hook and the key of the handler differ.\<close>

lemma ping_keys_differ:
  assumes "0x8000 \<le> p"
  shows "sint p \<noteq> uint (p :: 16 word)"
proof -
  from assms have low: "32768 \<le> uint p"
    by (simp add: word_le_def)
  have high: "uint p < 65536"
    using uint_lt2p [of p] by simp
  from low high have "(uint p + 32768) mod 65536 = uint p - 32768"
    by (simp add: mod_pos_geq)
  with high have "sint p < 0"
    by (simp add: sint_uint signed_take_bit_eq_take_bit_shift take_bit_eq_mod)
  with low show ?thesis
    by linarith
qed

text \<open>
  C8: the spec has the echo of an outstanding ping reported and its entry removed. The
  server has issued 32768 pings and its hook now issues the ping with id \<open>0x8000\<close> when
  the clock reads 5001, recording it under the key 32768. When its echo is handled at
  5251, the handler looks for the key \<open>-32768\<close>: nothing is reported and the entry of the
  ping stays in the table.
\<close>

theorem high_ping_id_echo_ignored:
  "handlePacket 5251 (PingPacket 0x8000)
     (Server_beforeLogic id 5000 5001
        ((NetworkServerObserver released 0)\<lparr>count := 1, ping := 0x8000\<rparr>,
         Engine_start (0::nat)))
   = ((NetworkServerObserver released 0)\<lparr>count := 2, ping := 0x8001, lastPing := 5001,
        pings := [(32768, 5001)], outBox := [PingPacket 0x8000]\<rparr>,
      Engine_start 0)"
  by (simp add: Server_beforeLogic_def NetworkServerObserver_def getInputs_def getTicks_def
      nextPing_def Server_sendPacket_def handlePacket_def Let_def)

section \<open>The baseline slot of the client\<close>

lemma Client_takeWorld_empty:
  "world s = None \<Longrightarrow> Client_takeWorld (s, e) = (getTicks e, s, e)"
  by (cases s) (simp add: Client_takeWorld_def getWorld_def)




section \<open>The replay\<close>

lemma replay_loop_funpow:
  "unat n - unat i = m \<Longrightarrow> i \<le> n \<Longrightarrow> replay_loop step i n e = (logic step ^^ m) e"
proof (induction m arbitrary: i e)
  case 0
  then have "\<not> i < n"
    by (simp add: word_less_nat_alt word_le_nat_alt)
  then show ?case
    by (simp add: replay_loop.simps)
next
  case (Suc m)
  then have less: "i < n"
    by (simp add: word_less_nat_alt)
  then have le: "i + 1 \<le> n"
    by (rule inc_le)
  have "i + 1 \<noteq> 0"
  proof
    assume "i + 1 = 0"
    then have "i = - 1"
      by (simp add: eq_neg_iff_add_eq_0)
    with less show False
      by simp
  qed
  then have "unat (i + 1) = Suc (unat i)"
    using unatSuc [of i] by (simp add: add.commute)
  with Suc.prems have "unat n - unat (i + 1) = m"
    by simp
  from Suc.IH [OF this le] less show ?case
    by (simp add: replay_loop.simps [of step i] funpow_swap1)
qed

lemma logic_funpow:
  "(logic step ^^ m) e =
     e\<lparr>stage_ticker := stage_ticker e + of_nat m,
       stage_simulation := (step ^^ m) (stage_simulation e),
       calls := calls e @ map (\<lambda>k. Logic (stage_ticker e + of_nat k)) [0..<m]\<rparr>"
  by (induction m) (simp_all add: logic_def add.assoc)

text \<open>
  C4: when the replay block runs with a baseline of tick \<open>B\<close> and \<open>B < C\<close> for the current
  tick \<open>C\<close>, the engine is called as follows and in this order: the baseline is restored,
  the sounds are switched off, the step runs once at each of the ticks \<open>B, B + 1, ..., C - 1\<close>
  (that is \<open>C - B\<close> times), and the sounds are switched on. The stage is back at tick \<open>C\<close>.
  Both hooks contain this block.
\<close>

theorem replay_covers_each_tick_once:
  assumes held: "held = Some w" and behind: "ticker w < currentTicks"
  shows "rollback_replay step held currentTicks e =
           e\<lparr>stage_ticker := currentTicks,
             stage_simulation := (step ^^ (unat currentTicks - unat (ticker w))) (simulation w),
             sounds_enabled := True,
             calls := calls e @ [UpdateState w, DisableSounds]
                        @ map (\<lambda>t. Logic (word_of_nat t)) [unat (ticker w)..<unat currentTicks]
                        @ [EnableSounds]\<rparr>"
proof -
  let ?m = "unat currentTicks - unat (ticker w)"
  let ?e1 = "disableSounds (updateState w e)"
  from behind have le: "ticker w \<le> currentTicks"
    by simp
  then have m: "unat (currentTicks - ticker w) = ?m"
    by (rule unat_sub)
  have loop: "replay_loop step 0 (currentTicks - ticker w) ?e1 = (logic step ^^ ?m) ?e1"
    by (rule replay_loop_funpow) (simp_all add: m)
  have "[unat (ticker w)..<unat currentTicks] = map (\<lambda>k. k + unat (ticker w)) [0..<?m]"
    using le by (simp add: map_add_upt word_le_nat_alt)
  then have ticks: "map (\<lambda>t. Logic (word_of_nat t)) [unat (ticker w)..<unat currentTicks]
      = map (\<lambda>k. Logic (ticker w + of_nat k)) [0..<?m]"
    by (simp add: o_def add.commute)
  have "(of_nat (unat (currentTicks - ticker w)) :: 32 word) = currentTicks - ticker w"
    by simp
  then have last: "ticker w + of_nat ?m = currentTicks"
    by (simp add: m)
  have "rollback_replay step held currentTicks e = enableSounds ((logic step ^^ ?m) ?e1)"
    using held behind by (simp add: rollback_replay_def loop)
  also have "\<dots> = e\<lparr>stage_ticker := currentTicks,
             stage_simulation := (step ^^ ?m) (simulation w),
             sounds_enabled := True,
             calls := calls e @ [UpdateState w, DisableSounds]
                        @ map (\<lambda>t. Logic (word_of_nat t)) [unat (ticker w)..<unat currentTicks]
                        @ [EnableSounds]\<rparr>"
    by (simp add: logic_funpow enableSounds_def disableSounds_def updateState_def ticks last)
  finally show ?thesis .
qed

theorem replay_covers_each_tick_once_witness:
  "rollback_replay Suc (Some \<lparr>ticker = 3, simulation = 100\<rparr>) 6
     \<lparr>stage_ticker = 6, stage_simulation = 555, sounds_enabled = True, calls = []\<rparr>
   = \<lparr>stage_ticker = 6, stage_simulation = 103, sounds_enabled = True,
      calls = [UpdateState \<lparr>ticker = 3, simulation = 100\<rparr>, DisableSounds,
               Logic 3, Logic 4, Logic 5, EnableSounds]\<rparr>"
proof -
  have ticks: "[unat (3 :: 32 word)..<unat (6 :: 32 word)] = [3, 4, 5]"
    by (simp add: upt_rec)
  have behind: "ticker \<lparr>ticker = 3, simulation = 100 :: nat\<rparr> < 6"
    by simp
  show ?thesis
    using replay_covers_each_tick_once [OF refl behind, of Suc
        "\<lparr>stage_ticker = 6, stage_simulation = 555, sounds_enabled = True, calls = []\<rparr>"]
    by (simp add: ticks)
qed

text \<open>
  The hook of the client reaches the block: with inputs pending, no new snapshot in the
  slot and a baseline behind the current tick it clears the inputs and replays.
\<close>

lemma Client_beforeLogic_replays:
  assumes "inputs_c s \<noteq> []" and "world s = None" and "lastState_c s = Some w"
    and "ticker w < getTicks e"
  shows "Client_beforeLogic step (s, e)
           = (s\<lparr>inputs_c := []\<rparr>, rollback_replay step (Some w) (getTicks e) e)"
  using assms by (simp add: Client_beforeLogic_def Client_takeWorld_empty)

section \<open>The hook of the server before a step\<close>

text \<open>
  Whatever the server holds, its hook makes at most one call to the engine, the snapshot
  of every thirtieth call: the test that guards the replay reads the table of inputs
  that \<open>getInputs\<close> has just cleared.
\<close>

lemma Server_beforeLogic_engine:
  "snd (Server_beforeLogic step now1 now2 (s, e))
     = (if count s mod 30 = 0 then snd (snapshotState e) else e)"
  by (simp add: Server_beforeLogic_def getInputs_def Server_sendPacket_def Let_def
      split: prod.split)

text \<open>
  C3: the spec has the server restore its baseline and replay when an input has arrived
  and the baseline is older than the current tick. Here an input for tick 5 is pending,
  the baseline held is of tick 3 and the stage is at tick 10: the hook clears the inputs
  and counts the call, and the engine receives no call at all: no restore, no muting and
  no step.
\<close>

theorem server_hook_skips_replay:
  "Server_beforeLogic Suc 0 0
     (\<lparr>outBox = [], lastInput = d, pings = [], alive_flag = True, count = 7, lastPing = 0,
       ping = 0, lastState = Some \<lparr>ticker = 3, simulation = 100\<rparr>,
       inputs = [(5, (d, 5))]\<rparr>,
      \<lparr>stage_ticker = 10, stage_simulation = 555, sounds_enabled = True, calls = []\<rparr>)
   = (\<lparr>outBox = [], lastInput = d, pings = [], alive_flag = True, count = 8, lastPing = 0,
       ping = 0, lastState = Some \<lparr>ticker = 3, simulation = 100\<rparr>, inputs = []\<rparr>,
      \<lparr>stage_ticker = 10, stage_simulation = 555, sounds_enabled = True, calls = []\<rparr>)"
  by (simp add: Server_beforeLogic_def getInputs_def getTicks_def Let_def)

section \<open>The layout of a frame\<close>

lemma checkBuffer_room:
  assumes "buffer_ok b" and "0 \<le> n"
  shows "buffer_ok (checkBuffer b n) \<and> lengthB (checkBuffer b n) = lengthB b
       \<and> lengthB b + n \<le> actualLength (checkBuffer b n)
       \<and> sent_bytes (checkBuffer b n) = sent_bytes b"
  using assms
  by (auto simp add: buffer_ok_def checkBuffer_def increaseBuffer_def sent_bytes_def Let_def max_def)

lemma store_bytes_fits:
  assumes "at + length bs \<le> length buf"
  shows "length (store_bytes buf at bs) = length buf"
    and "take (at + length bs) (store_bytes buf at bs) = take at buf @ bs"
  using assms by (simp_all add: store_bytes_def)

lemma store_at_cursor:
  assumes ok: "buffer_ok b" and room: "lengthB b + int (length bs) \<le> actualLength b"
  shows "buffer_ok (b\<lparr>buffer := store_bytes (buffer b) (nat (lengthB b)) bs,
                       lengthB := lengthB b + int (length bs)\<rparr>)
       \<and> sent_bytes (b\<lparr>buffer := store_bytes (buffer b) (nat (lengthB b)) bs,
                       lengthB := lengthB b + int (length bs)\<rparr>) = sent_bytes b @ bs"
proof -
  from ok room have fits: "nat (lengthB b) + length bs \<le> length (buffer b)"
    unfolding buffer_ok_def by linarith
  from ok have cursor: "nat (lengthB b + int (length bs)) = nat (lengthB b) + length bs"
    by (simp add: buffer_ok_def nat_add_distrib)
  from ok room store_bytes_fits [OF fits] show ?thesis
    by (simp add: buffer_ok_def sent_bytes_def cursor)
qed

lemma put16_appends:
  assumes "buffer_ok b"
  shows "buffer_ok (put16 b d) \<and> sent_bytes (put16 b d) = sent_bytes b @ dump16 d"
proof -
  have two: "int (length (dump16 d)) = 2"
    by (simp add: dump16_def)
  from checkBuffer_room [OF assms, of 2]
  have "buffer_ok (checkBuffer b 2)"
    and "lengthB (checkBuffer b 2) + int (length (dump16 d)) \<le> actualLength (checkBuffer b 2)"
    and same: "sent_bytes (checkBuffer b 2) = sent_bytes b"
    by (simp_all add: two)
  from store_at_cursor [OF this(1,2)] same show ?thesis
    by (simp add: put16_def Let_def two)
qed

lemma put32_appends:
  assumes "buffer_ok b"
  shows "buffer_ok (put32 b d) \<and> sent_bytes (put32 b d) = sent_bytes b @ dump32 d"
proof -
  have four: "int (length (dump32 d)) = 4"
    by (simp add: dump32_def)
  from checkBuffer_room [OF assms, of 4]
  have "buffer_ok (checkBuffer b 4)"
    and "lengthB (checkBuffer b 4) + int (length (dump32 d)) \<le> actualLength (checkBuffer b 4)"
    and same: "sent_bytes (checkBuffer b 4) = sent_bytes b"
    by (simp_all add: four)
  from store_at_cursor [OF this(1,2)] same show ?thesis
    by (simp add: put32_def Let_def four)
qed

lemma add_appends:
  assumes "buffer_ok b"
  shows "buffer_ok (add b bs (int (length bs)))
       \<and> sent_bytes (add b bs (int (length bs))) = sent_bytes b @ bs"
proof -
  from checkBuffer_room [OF assms, of "int (length bs)"]
  have "buffer_ok (checkBuffer b (int (length bs)))"
    and "lengthB (checkBuffer b (int (length bs))) + int (length bs)
           \<le> actualLength (checkBuffer b (int (length bs)))"
    and same: "sent_bytes (checkBuffer b (int (length bs))) = sent_bytes b"
    by simp_all
  from store_at_cursor [OF this(1,2)] same show ?thesis
    by (simp add: add_def Let_def)
qed

lemma put_string_appends:
  assumes "buffer_ok b"
  shows "buffer_ok (put_string b str)
       \<and> sent_bytes (put_string b str) = sent_bytes b @ dump16 (word_of_nat (length str)) @ str"
  using put16_appends [OF assms, of "word_of_nat (length str)"]
    add_appends [of "put16 b (word_of_nat (length str))" str]
  by (simp add: put_string_def)

lemma NetworkBuffer_new_ok: "0 \<le> n \<Longrightarrow> buffer_ok (NetworkBuffer_new n) \<and> sent_bytes (NetworkBuffer_new n) = []"
  by (simp add: buffer_ok_def NetworkBuffer_new_def sent_bytes_def)

lemma sendPacket_Ping_frame:
  "sendPacket ext (PingPacket p) = dump16 NetworkMagic @ dump16 PingType @ dump16 p"
proof -
  let ?b0 = "NetworkBuffer_new 128"
  let ?b1 = "put16 ?b0 NetworkMagic"
  let ?b2 = "put16 ?b1 PingType"
  have b0: "buffer_ok ?b0 \<and> sent_bytes ?b0 = []"
    by (rule NetworkBuffer_new_ok) simp
  with put16_appends [of ?b0 NetworkMagic]
  have b1: "buffer_ok ?b1 \<and> sent_bytes ?b1 = dump16 NetworkMagic"
    by simp
  with put16_appends [of ?b1 PingType]
  have b2: "buffer_ok ?b2 \<and> sent_bytes ?b2 = dump16 NetworkMagic @ dump16 PingType"
    by simp
  with put16_appends [of ?b2 p] show ?thesis
    by (simp add: sendPacket_def)
qed

lemma sendPacket_Input_frame:
  "sendPacket ext (InputPacket inp tick)
     = dump16 NetworkMagic @ dump16 InputType @ dump32 tick
         @ dump16 (word_of_nat (length (inputCompact ext inp))) @ inputCompact ext inp"
proof -
  let ?b0 = "NetworkBuffer_new 128"
  let ?b1 = "put16 ?b0 NetworkMagic"
  let ?b2 = "put16 ?b1 InputType"
  let ?b3 = "put32 ?b2 tick"
  have b0: "buffer_ok ?b0 \<and> sent_bytes ?b0 = []"
    by (rule NetworkBuffer_new_ok) simp
  with put16_appends [of ?b0 NetworkMagic]
  have b1: "buffer_ok ?b1 \<and> sent_bytes ?b1 = dump16 NetworkMagic"
    by simp
  with put16_appends [of ?b1 InputType]
  have b2: "buffer_ok ?b2 \<and> sent_bytes ?b2 = dump16 NetworkMagic @ dump16 InputType"
    by simp
  with put32_appends [of ?b2 tick]
  have b3: "buffer_ok ?b3 \<and> sent_bytes ?b3 = dump16 NetworkMagic @ dump16 InputType @ dump32 tick"
    by simp
  with put_string_appends [of ?b3 "inputCompact ext inp"] show ?thesis
    by (simp add: sendPacket_def)
qed

lemma sendPacket_World_frame:
  "sendPacket ext (WorldPacket w)
     = dump16 NetworkMagic @ dump16 WorldType
         @ dump16 (word_of_nat (length (LZ4_compress ext (worldCompact ext w))))
         @ dump16 (word_of_nat (length (worldCompact ext w)))
         @ LZ4_compress ext (worldCompact ext w)"
proof -
  let ?out = "LZ4_compress ext (worldCompact ext w)"
  let ?b0 = "NetworkBuffer_new 128"
  let ?b1 = "put16 ?b0 NetworkMagic"
  let ?b2 = "put16 ?b1 WorldType"
  let ?b3 = "put16 ?b2 (word_of_int (int (length ?out)))"
  let ?b4 = "put16 ?b3 (word_of_nat (length (worldCompact ext w)))"
  have b0: "buffer_ok ?b0 \<and> sent_bytes ?b0 = []"
    by (rule NetworkBuffer_new_ok) simp
  with put16_appends [of ?b0 NetworkMagic]
  have b1: "buffer_ok ?b1 \<and> sent_bytes ?b1 = dump16 NetworkMagic"
    by simp
  with put16_appends [of ?b1 WorldType]
  have b2: "buffer_ok ?b2 \<and> sent_bytes ?b2 = dump16 NetworkMagic @ dump16 WorldType"
    by simp
  with put16_appends [of ?b2 "word_of_int (int (length ?out))"]
  have b3: "buffer_ok ?b3 \<and> sent_bytes ?b3 = dump16 NetworkMagic @ dump16 WorldType
      @ dump16 (word_of_nat (length ?out))"
    by simp
  with put16_appends [of ?b3 "word_of_nat (length (worldCompact ext w))"]
  have b4: "buffer_ok ?b4 \<and> sent_bytes ?b4 = dump16 NetworkMagic @ dump16 WorldType
      @ dump16 (word_of_nat (length ?out)) @ dump16 (word_of_nat (length (worldCompact ext w)))"
    by simp
  with add_appends [of ?b4 ?out] show ?thesis
    by (simp add: sendPacket_def Let_def)
qed

section \<open>Decoding a frame that has arrived\<close>

lemma word16_bytes:
  "push_bit 8 (ucast (ucast (drop_bit 8 d) :: byte)) OR ucast (ucast d :: byte) = (d :: 16 word)"
  by (intro bit_word_eqI) (auto simp add: bit_simps)

lemma parse16_dump16: "parse16 (dump16 d @ rest) 0 = d"
  by (simp add: parse16_def dump16_def word16_bytes)

lemma read16_dump16: "read16 (dump16 d @ rest) = Inr (d, rest)"
  using parse16_dump16 [of d rest] by (simp add: read16_def) (simp add: dump16_def)

lemma parse16_received_0:
  "2 \<le> n \<Longrightarrow> parse16 (take n (dump16 m @ rest) @ ys) 0 = m"
  by (simp add: parse16_def dump16_def word16_bytes nth_append)

lemma parse16_received_2:
  "4 \<le> n \<Longrightarrow> parse16 (take n (dump16 m @ dump16 t @ rest) @ ys) 2 = t"
  by (simp add: parse16_def dump16_def word16_bytes nth_append numeral_2_eq_2)

lemma readPacket_received:
  assumes cap: "5 \<le> cap" and more: "rest \<noteq> []"
  shows "readPacket (received cap (dump16 NetworkMagic @ dump16 t @ rest)) =
          (if t = InputType then Inr None
           else if t = PingType
           then Inr (Some (PingPacket (fst (get16
                  ((received cap (dump16 NetworkMagic @ dump16 t @ rest))\<lparr>lengthB := 4\<rparr>)))))
           else if t = WorldType then Inr None
           else Inl (MugenException (''Unknown packet type: '' @ show_int (sint t))))"
proof -
  let ?frame = "dump16 NetworkMagic @ dump16 t @ rest"
  let ?b = "received cap ?frame"
  define n where "n = min (length ?frame) (nat cap)"
  from cap more have n: "5 \<le> n"
    by (cases rest) (simp_all add: n_def dump16_def)
  have b: "lengthB ?b = 0" "contains ?b = int n"
    "buffer ?b = take n ?frame @ drop n (replicate (nat cap) 0)"
    by (simp_all add: received_def readAll_def NetworkBuffer_new_def n_def Let_def)
  have magic: "parse16 (buffer ?b) 0 = NetworkMagic"
    unfolding b(3) using n by (intro parse16_received_0) simp
  have type: "parse16 (buffer ?b) 2 = t"
    unfolding b(3) using n by (intro parse16_received_2) simp
  have first: "get16 ?b = (NetworkMagic, ?b\<lparr>lengthB := 2\<rparr>)"
    using n by (simp add: get16_def b(1,2) int_cast_def magic)
  have second: "get16 (?b\<lparr>lengthB := 2\<rparr>) = (t, ?b\<lparr>lengthB := 4\<rparr>)"
    using n by (simp add: get16_def b(1,2) int_cast_def type)
  show ?thesis
    by (simp add: readPacket_def first second split: prod.split)
qed

lemma get16_last_field:
  "get16 ((received cap (dump16 m @ dump16 t @ dump16 p))\<lparr>lengthB := 4\<rparr>)
     = (- 1, (received cap (dump16 m @ dump16 t @ dump16 p))\<lparr>lengthB := 4\<rparr>)"
  by (simp add: get16_def received_def readAll_def NetworkBuffer_new_def dump16_def int_cast_def Let_def)

lemma dump16_not_Nil: "dump16 d \<noteq> []"
  by (simp add: dump16_def)

text \<open>
  A ping that is followed by at least one more byte in the buffer is decoded as it was
  sent.
\<close>

lemma ping_decodes_before_more_bytes:
  assumes "extra \<noteq> []" and "7 \<le> cap"
  shows "readPacket (received cap (sendPacket ext (PingPacket p) @ extra))
           = Inr (Some (PingPacket p))"
proof -
  let ?frame = "dump16 NetworkMagic @ dump16 PingType @ dump16 p @ extra"
  let ?b = "received cap ?frame"
  define n where "n = min (length ?frame) (nat cap)"
  from assms have n: "7 \<le> n"
    by (cases extra) (simp_all add: n_def dump16_def)
  have b: "contains ?b = int n"
    "buffer ?b = take n ?frame @ drop n (replicate (nat cap) 0)"
    by (simp_all add: received_def readAll_def NetworkBuffer_new_def n_def Let_def)
  have "parse16 (take n ?frame @ drop n (replicate (nat cap) 0)) 4 = p"
    using n by (simp add: parse16_def dump16_def word16_bytes nth_append)
  then have "get16 (?b\<lparr>lengthB := 4\<rparr>) = (p, ?b\<lparr>lengthB := 6\<rparr>)"
    using n by (simp add: get16_def b(1) int_cast_def) (simp add: b(2))
  moreover from assms have "5 \<le> cap" and "dump16 p @ extra \<noteq> []"
    by simp_all
  ultimately show ?thesis
    by (simp add: sendPacket_Ping_frame readPacket_received PingType_def InputType_def)
qed

text \<open>
  C1: the spec has the decoding of an encoded packet give the packet back. On the code, a
  ping with id 7 that arrives alone in a buffer of 1024 bytes is decoded as a ping with
  id \<open>-1\<close>, because the id is the last field of its frame; and every input packet and
  every world packet is decoded as no packet at all, whatever the collaborators write
  into the frame.
\<close>

theorem round_trip_loses_packets:
  "readPacket (received 1024 (sendPacket ext (PingPacket 7))) = Inr (Some (PingPacket (- 1)))
   \<and> readPacket (received 1024 (sendPacket ext' (InputPacket inp tick))) = Inr None
   \<and> readPacket (received 1024 (sendPacket ext'' (WorldPacket w))) = Inr None"
proof -
  have ping: "readPacket (received 1024 (sendPacket ext (PingPacket 7)))
      = Inr (Some (PingPacket (- 1)))"
    unfolding sendPacket_Ping_frame
    by (simp add: readPacket_received dump16_not_Nil get16_last_field PingType_def InputType_def)
  have input: "readPacket (received 1024 (sendPacket ext' (InputPacket inp tick))) = Inr None"
    unfolding sendPacket_Input_frame
    by (simp add: readPacket_received dump32_def)
  have world: "readPacket (received 1024 (sendPacket ext'' (WorldPacket w))) = Inr None"
    unfolding sendPacket_World_frame
    by (simp add: readPacket_received dump16_not_Nil PingType_def InputType_def WorldType_def)
  from ping input world show ?thesis
    by simp
qed

section \<open>A type code that is not known\<close>

text \<open>
  C5, as the code has it: for a frame that holds the magic number, a type code that is
  none of the three known ones and at least one more byte, \<open>readPacket\<close> throws a
  \<open>MugenException\<close> whose message names the type code instead of returning no packet;
  the receive loop of the client, which reads the same frame from the socket, takes the
  four bytes, writes no line to the log, raises no error and goes on with the next round.
\<close>

theorem unknown_type_throws:
  assumes "t \<noteq> InputType" and "t \<noteq> PingType" and "t \<noteq> WorldType"
    and "rest \<noteq> []" and "5 \<le> cap"
  shows "readPacket (received cap (dump16 NetworkMagic @ dump16 t @ rest))
           = Inl (MugenException (''Unknown packet type: '' @ show_int (sint t)))
       \<and> doReceive_round rd s (dump16 NetworkMagic @ dump16 t @ rest)
           = Inr \<lparr>client = s, socket_rest = rest, socket_out = [], debug_log = []\<rparr>"
  using assms by (simp add: readPacket_received doReceive_round_def read16_dump16)

theorem unknown_type_throws_witness:
  "readPacket (received 1024 [0xd9, 0x7f, 0xff, 0xf9, 1])
     = (Inl (MugenException ''Unknown packet type: -7'') :: error + nat Packet option)
   \<and> doReceive_round
       \<lparr>uninitialised = (\<lambda>i. 0), LZ4_uncompress = (\<lambda>data n. []), readTokenFromString = (\<lambda>str. None :: unit option),
        deserialize = (\<lambda>head. None)\<rparr>
       (NetworkClientObserver :: nat Client) [0xd9, 0x7f, 0xff, 0xf9, 1]
     = Inr \<lparr>client = NetworkClientObserver, socket_rest = [1], socket_out = [],
            debug_log = []\<rparr>"
proof -
  have frame: "[0xd9, 0x7f, 0xff, 0xf9, 1] = dump16 NetworkMagic @ dump16 (- 7) @ [1 :: byte]"
    by (simp add: dump16_def NetworkMagic_def)
  have msg: "show_int (- 7) = ''-7''"
    by code_simp
  show ?thesis
    unfolding frame
    using unknown_type_throws [of "- 7" "[1]" 1024
        "\<lparr>uninitialised = (\<lambda>i. 0), LZ4_uncompress = (\<lambda>data n. []), readTokenFromString = (\<lambda>str. None :: unit option),
          deserialize = (\<lambda>head. None)\<rparr>" "NetworkClientObserver :: nat Client"]
    by (simp add: msg InputType_def PingType_def WorldType_def)
qed

text \<open>
  C5 as the spec states it fails: the decoding of the magic number followed by the type
  code 3 raises an error.
\<close>

theorem unknown_type_raises_error:
  "readPacket (received 1024 [0xd9, 0x7f, 0, 3, 0, 0])
     = (Inl (MugenException ''Unknown packet type: 3'') :: error + unit Packet option)"
proof -
  have frame: "[0xd9, 0x7f, 0, 3, 0, 0] = dump16 NetworkMagic @ dump16 3 @ [0, 0 :: byte]"
    by (simp add: dump16_def NetworkMagic_def)
  have msg: "show_int 3 = ''3''"
    by code_simp
  show ?thesis
    unfolding frame
    by (simp add: readPacket_received msg InputType_def PingType_def WorldType_def)
qed

section \<open>The output array of a world frame\<close>

lemma new_array_length: "new_array fresh n = Inr arr \<Longrightarrow> int (length arr) = n"
  by (auto simp add: new_array_def split: if_splits)

text \<open>
  For a size field that is not negative as an \<open>int16_t\<close>, and a decompressor that writes
  no more bytes than the size it is told, the output array has one byte more than the
  size and holds a zero at the index of the size after the decompression, whatever the
  array held when it was allocated; the text is then read inside the array.
\<close>

lemma world_output_valid:
  assumes size: "0 \<le> sint uncompressed"
    and bounded: "length (LZ4_uncompress rd data (sint uncompressed)) \<le> nat (sint uncompressed)"
  shows "\<exists>what. world_output rd data uncompressed = Inr what
           \<and> int (length what) = sint uncompressed + 1
           \<and> what ! nat (sint uncompressed) = 0
           \<and> c_string what = Inr (takeWhile (\<lambda>ch. ch \<noteq> 0) what)"
proof -
  define S where "S = nat (sint uncompressed)"
  define what0 where "what0 = map (uninitialised rd) [0..<nat (sint uncompressed + 1)]"
  define what1 where "what1 = what0[S := 0]"
  define written where "written = LZ4_uncompress rd data (sint uncompressed)"
  from size have n: "nat (sint uncompressed + 1) = Suc S"
    by (simp add: S_def)
  have len0: "length what0 = Suc S"
    by (simp only: what0_def length_map length_upt n diff_zero)
  then have len: "length what1 = Suc S"
    by (simp add: what1_def)
  have zero: "what1 ! S = 0"
    using len0 by (simp add: what1_def)
  have short: "length written \<le> S"
    using bounded by (simp add: written_def S_def)
  have alloc: "new_array (uninitialised rd) (sint uncompressed + 1) = Inr what0"
    using size by (simp add: new_array_def what0_def)
  have closed: "array_store what0 (sint uncompressed) 0 = Inr what1"
    using size len0 by (simp add: array_store_def what1_def S_def)
  have filled: "write_output what1 written = Inr (written @ drop (length written) what1)"
    using short len by (simp add: write_output_def)
  have result: "world_output rd data uncompressed = Inr (written @ drop (length written) what1)"
    by (simp add: world_output_def alloc closed filled [unfolded written_def])
      (simp add: written_def)
  have length: "length (written @ drop (length written) what1) = Suc S"
    using short len by simp
  have at_end: "(written @ drop (length written) what1) ! S = 0"
    using short len zero by (simp add: nth_append)
  from length at_end have "0 \<in> set (written @ drop (length written) what1)"
    by (metis lessI nth_mem)
  then have "c_string (written @ drop (length written) what1)
      = Inr (takeWhile (\<lambda>ch. ch \<noteq> 0) (written @ drop (length written) what1))"
    by (simp add: c_string_def)
  with length at_end show ?thesis
    using result size by (auto simp add: S_def)
qed

text \<open>
  C2: the spec has the receiver allocate one byte more than the declared size and write
  the closing zero at the index of the size for every world frame. A frame whose size
  field is \<open>0xffff\<close> is read as the size \<open>-1\<close>: the array has no byte and the closing zero
  is stored at index \<open>-1\<close>, outside the array, before the decompressor is called.
\<close>

theorem negative_size_writes_outside:
  "doReceive_round rd s ([0xd9, 0x7f, 0, 2, 0, 0, 0xff, 0xff] @ rest) = Inl out_of_bounds"
  by (simp add: doReceive_round_def receive_world_def world_output_def read16_def readBytes_def
      new_array_def array_store_def parse16_def NetworkMagic_def WorldType_def PingType_def)

text \<open>A size field from \<open>0x8000\<close> to \<open>0xfffe\<close> makes the allocation itself fail.\<close>

lemma negative_size_fails_allocation:
  "doReceive_round rd s ([0xd9, 0x7f, 0, 2, 0, 0, 0xff, 0xfe] @ rest) = Inl bad_array_new_length"
  by (simp add: doReceive_round_def receive_world_def world_output_def read16_def readBytes_def
      new_array_def array_store_def parse16_def NetworkMagic_def WorldType_def PingType_def)

section \<open>One tick of the server\<close>

lemma input_packets_append: "input_packets (ps @ qs) = input_packets ps @ input_packets qs"
  by (induction ps rule: input_packets.induct) simp_all

lemma world_packets_append: "world_packets (ps @ qs) = world_packets ps @ world_packets qs"
  by (induction ps rule: world_packets.induct) simp_all

lemma Server_beforeLogic_server:
  "fst (Server_beforeLogic step now1 now2 (s, e)) = s'
   \<Longrightarrow> lastInput s' = lastInput s \<and> count s' = count s + 1
     \<and> input_packets (outBox s') = input_packets (outBox s)
     \<and> world_packets (outBox s')
         = world_packets (outBox s)
             @ (if count s mod 30 = 0
                then [\<lparr>ticker = stage_ticker e, simulation = stage_simulation e\<rparr>] else [])"
  by (auto simp add: Server_beforeLogic_def getInputs_def Server_sendPacket_def nextPing_def
      snapshotState_def Let_def input_packets_append world_packets_append split: prod.splits if_splits)

lemma Server_beforeLogic_stage:
  "stage_ticker (snd (Server_beforeLogic step now1 now2 (s, e))) = stage_ticker e
   \<and> stage_simulation (snd (Server_beforeLogic step now1 now2 (s, e))) = stage_simulation e"
  by (simp add: Server_beforeLogic_engine snapshotState_def)

lemma Server_tick_effect:
  assumes "Server_tick step (now1, now2, latest) (s, e) = (s', e')"
  shows "lastInput s' = latest \<and> count s' = count s + 1
     \<and> stage_ticker e' = stage_ticker e + 1
     \<and> stage_simulation e' = step (stage_simulation e)
     \<and> input_packets (outBox s')
         = input_packets (outBox s)
             @ (if latest \<noteq> lastInput s then [(latest, stage_ticker e + 1)] else [])
     \<and> world_packets (outBox s')
         = world_packets (outBox s)
             @ (if count s mod 30 = 0
                then [\<lparr>ticker = stage_ticker e, simulation = stage_simulation e\<rparr>] else [])"
proof (cases "Server_beforeLogic step now1 now2 (s, e)")
  case (Pair s1 e1)
  with Server_beforeLogic_server [of step now1 now2 s e s1]
    Server_beforeLogic_stage [of step now1 now2 s e] assms
  show ?thesis
    by (auto simp add: Server_tick_def Server_afterLogic_def Server_sendPacket_def logic_def
        getTicks_def input_packets_append world_packets_append split: if_splits)
qed

section \<open>Sending the input when it changes\<close>

text \<open>
  C6, as the code has it: the hook after a step enqueues an input packet with the
  current input and the current tick exactly when the current input differs from
  \<open>lastInput\<close>, which is the last input sent or, before anything has been sent, the input
  the server was built with. Over five ticks with the inputs \<open>I0 = I1 = I2 \<noteq> I3 = I4\<close> a
  packet is enqueued at the fourth tick in any case and at the first tick only if \<open>I0\<close>
  differs from \<open>lastInput\<close> on entry: two packets then, and one otherwise.
\<close>

theorem input_sent_on_change:
  assumes differ: "I0 \<noteq> I3"
  shows "Server_afterLogic latest (s, e)
           = (if latest \<noteq> lastInput s
              then (s\<lparr>lastInput := latest,
                      outBox := outBox s @ [InputPacket latest (getTicks e)]\<rparr>, e)
              else (s, e))
       \<and> input_packets (outBox (fst (Server_run step
             [(a1, b1, I0), (a2, b2, I0), (a3, b3, I0), (a4, b4, I3), (a5, b5, I3)] (s, e))))
           = input_packets (outBox s)
               @ (if I0 \<noteq> lastInput s then [(I0, stage_ticker e + 1)] else [])
               @ [(I3, stage_ticker e + 4)]"
proof -
  have hook: "Server_afterLogic latest (s, e)
           = (if latest \<noteq> lastInput s
              then (s\<lparr>lastInput := latest,
                      outBox := outBox s @ [InputPacket latest (getTicks e)]\<rparr>, e)
              else (s, e))"
    by (simp add: Server_afterLogic_def Server_sendPacket_def)
  obtain s1 e1 where t1: "Server_tick step (a1, b1, I0) (s, e) = (s1, e1)"
    by (cases "Server_tick step (a1, b1, I0) (s, e)")
  obtain s2 e2 where t2: "Server_tick step (a2, b2, I0) (s1, e1) = (s2, e2)"
    by (cases "Server_tick step (a2, b2, I0) (s1, e1)")
  obtain s3 e3 where t3: "Server_tick step (a3, b3, I0) (s2, e2) = (s3, e3)"
    by (cases "Server_tick step (a3, b3, I0) (s2, e2)")
  obtain s4 e4 where t4: "Server_tick step (a4, b4, I3) (s3, e3) = (s4, e4)"
    by (cases "Server_tick step (a4, b4, I3) (s3, e3)")
  obtain s5 e5 where t5: "Server_tick step (a5, b5, I3) (s4, e4) = (s5, e5)"
    by (cases "Server_tick step (a5, b5, I3) (s4, e4)")
  note f1 = Server_tick_effect [OF t1] and f2 = Server_tick_effect [OF t2]
    and f3 = Server_tick_effect [OF t3] and f4 = Server_tick_effect [OF t4]
    and f5 = Server_tick_effect [OF t5]
  have "input_packets (outBox s5)
      = input_packets (outBox s)
          @ (if I0 \<noteq> lastInput s then [(I0, stage_ticker e + 1)] else [])
          @ [(I3, stage_ticker e + 4)]"
    using differ by (simp add: f1 f2 f3 f4 f5)
  then have "input_packets (outBox (fst (Server_run step
             [(a1, b1, I0), (a2, b2, I0), (a3, b3, I0), (a4, b4, I3), (a5, b5, I3)] (s, e))))
           = input_packets (outBox s)
               @ (if I0 \<noteq> lastInput s then [(I0, stage_ticker e + 1)] else [])
               @ [(I3, stage_ticker e + 4)]"
    by (simp add: t1 t2 t3 t4 t5)
  with hook show ?thesis
    by simp
qed

theorem input_sent_on_change_witness:
  "input_packets (outBox (fst (Server_run Suc
       [(0, 0, holding_a), (0, 0, holding_a), (0, 0, holding_a), (0, 0, released), (0, 0, released)]
       (NetworkServerObserver released 0, Engine_start (0 :: nat)))))
     = [(holding_a, 1), (released, 4)]"
proof -
  have differ: "holding_a \<noteq> released"
    by (simp add: holding_a_def released_def)
  show ?thesis
    using input_sent_on_change [OF differ, of released "NetworkServerObserver released 0" "Engine_start (0 :: nat)"
        Suc 0 0 0 0 0 0 0 0 0 0]
    by (simp add: NetworkServerObserver_def Engine_start_def differ)
qed

text \<open>
  C6 as the spec states it fails: a server that holds the input with no key as
  \<open>lastInput\<close> sees no key for three ticks and then the key \<open>a\<close> for two ticks; exactly one
  input packet is enqueued, not two.
\<close>

theorem unchanged_first_input_not_sent:
  "input_packets (outBox (fst (Server_run Suc
       [(0, 0, released), (0, 0, released), (0, 0, released), (0, 0, holding_a), (0, 0, holding_a)]
       (NetworkServerObserver released 0, Engine_start (0 :: nat)))))
     = [(holding_a, 4)]"
  by code_simp

section \<open>The snapshot of every thirtieth tick\<close>

lemma Server_run_worlds:
  "world_packets (outBox (fst (Server_run step xs (s, e))))
     = world_packets (outBox s)
         @ map (\<lambda>j. \<lparr>ticker = stage_ticker e + of_nat j,
                      simulation = (step ^^ j) (stage_simulation e)\<rparr>)
             (filter (\<lambda>j. (count s + of_nat j) mod 30 = 0) [0..<length xs])"
proof (induction xs arbitrary: s e)
  case Nil
  show ?case
    by simp
next
  case (Cons x xs)
  obtain now1 now2 latest where x: "x = (now1, now2, latest)"
    by (cases x)
  obtain s1 e1 where tick: "Server_tick step (now1, now2, latest) (s, e) = (s1, e1)"
    by (cases "Server_tick step (now1, now2, latest) (s, e)")
  note effect = Server_tick_effect [OF tick]
  have upt: "[0..<length (x # xs)] = 0 # map Suc [0..<length xs]"
    by (simp add: upt_conv_Cons map_Suc_upt del: upt_Suc)
  have "world_packets (outBox (fst (Server_run step (x # xs) (s, e))))
      = world_packets (outBox (fst (Server_run step xs (s1, e1))))"
    by (simp add: x tick)
  also have "\<dots> = world_packets (outBox s1)
         @ map (\<lambda>j. \<lparr>ticker = stage_ticker e1 + of_nat j,
                      simulation = (step ^^ j) (stage_simulation e1)\<rparr>)
             (filter (\<lambda>j. (count s1 + of_nat j) mod 30 = 0) [0..<length xs])"
    by (rule Cons.IH)
  also have "\<dots> = world_packets (outBox s)
         @ map (\<lambda>j. \<lparr>ticker = stage_ticker e + of_nat j,
                      simulation = (step ^^ j) (stage_simulation e)\<rparr>)
             (filter (\<lambda>j. (count s + of_nat j) mod 30 = 0) [0..<length (x # xs)])"
    unfolding upt
    by (simp add: effect filter_map o_def funpow_swap1 add.assoc)
  finally show ?case .
qed

lemma word32_mod_30:
  assumes "j < 2 ^ 32"
  shows "(of_nat j :: 32 word) mod 30 = 0 \<longleftrightarrow> j mod 30 = 0"
proof -
  from assms have "unat (of_nat j :: 32 word) = j"
    by (simp add: unat_of_nat)
  then have "unat ((of_nat j :: 32 word) mod 30) = j mod 30"
    by (simp add: unat_mod)
  then show ?thesis
    by (simp flip: unat_eq_0)
qed

text \<open>
  C7, as the code has it: the hook before a step enqueues a snapshot when its call
  counter, which starts at zero, is a multiple of 30. For a server and an engine that
  start together, a run of \<open>n\<close> ticks (at most \<open>2 ^ 32\<close>, where the counter wraps) enqueues
  exactly the snapshots of the ticks \<open>k < n\<close> with \<open>k mod 30 = 0\<close>, in this order. The
  snapshot of tick 30 is therefore enqueued in the 31st tick: a run of 31 ticks enqueues
  two snapshots, those of tick 0 and of tick 30.
\<close>

theorem snapshot_every_thirtieth_tick:
  assumes "length xs \<le> 2 ^ 32"
  shows "world_packets (outBox (fst (Server_run step xs
             (NetworkServerObserver d now, Engine_start sim0))))
           = map (\<lambda>j. \<lparr>ticker = of_nat j, simulation = (step ^^ j) sim0\<rparr>)
               (filter (\<lambda>j. j mod 30 = 0) [0..<length xs])"
proof -
  have "filter (\<lambda>j. (of_nat j :: 32 word) mod 30 = 0) [0..<length xs]
      = filter (\<lambda>j. j mod 30 = 0) [0..<length xs]"
    using assms by (intro filter_cong refl word32_mod_30) simp
  then show ?thesis
    by (simp add: Server_run_worlds NetworkServerObserver_def Engine_start_def)
qed

theorem snapshot_every_thirtieth_tick_witness:
  "world_packets (outBox (fst (Server_run Suc (replicate 31 (0, 0, released))
       (NetworkServerObserver released 0, Engine_start (0 :: nat)))))
     = [\<lparr>ticker = 0, simulation = 0\<rparr>, \<lparr>ticker = 30, simulation = 30\<rparr>]"
proof -
  have ticks: "filter (\<lambda>j. j mod 30 = 0) [0..<31] = [0, 30 :: nat]"
    by code_simp
  have steps: "(Suc ^^ 30) 0 = 30"
    by code_simp
  have short: "length (replicate 31 (0 :: 64 word, 0 :: 64 word, released)) \<le> 2 ^ 32"
    by simp
  show ?thesis
    using snapshot_every_thirtieth_tick [OF short, of Suc released 0 0]
    by (simp add: ticks steps)
qed

text \<open>
  C7 as the spec states it fails: after 30 ticks the only snapshot enqueued is the one of
  tick 0.
\<close>

theorem thirty_ticks_one_snapshot:
  "world_packets (outBox (fst (Server_run Suc (replicate 30 (0, 0, released))
       (NetworkServerObserver released 0, Engine_start (0 :: nat)))))
     = [\<lparr>ticker = 0, simulation = 0\<rparr>]"
  by code_simp

end
